theory Spec2Isabelle
  imports Complex_Main
begin

section \<open>Python values used by the sidecar\<close>

text \<open>
  A Python \<open>str\<close> is a sequence of code points and \<open>len\<close> counts code points. The model
  writes it as a \<^typ>\<open>string\<close> whose characters are the code points U+0000 to U+00FF, so
  \<^const>\<open>length\<close>, \<^const>\<open>take\<close> and \<open>@\<close> are \<open>len\<close>, slicing from the start and
  concatenation. The string methods below are Python's on that range.

  A Python \<open>float\<close> is not modelled: the type variable \<open>'f\<close> stands for it, and the one
  operation the code applies to a float, \<open>round(float(x), 4)\<close>, is the parameter
  \<open>round4\<close> of the functions that use it.
\<close>

definition isspace :: "char \<Rightarrow> bool" where
  \<comment> \<open>\<open>str.isspace\<close> on one code point below U+0100: TAB to CR, FS to US, space, NEL, NBSP.\<close>
  "isspace c =
     (let n = (of_char c :: nat)
      in (9 \<le> n \<and> n \<le> 13) \<or> (28 \<le> n \<and> n \<le> 32) \<or> n = 133 \<or> n = 160)"

definition strip :: "string \<Rightarrow> string" where
  \<comment> \<open>\<open>str.strip()\<close> with no argument: whitespace removed from both ends.\<close>
  "strip s = rev (dropWhile isspace (rev (dropWhile isspace s)))"

definition lower_char :: "char \<Rightarrow> char" where
  \<comment> \<open>\<open>str.lower\<close> on one code point below U+0100: A to Z and the Latin-1 capitals
      (U+00C0 to U+00DE without the multiplication sign U+00D7) move up by 32.\<close>
  "lower_char c =
     (let n = (of_char c :: nat)
      in if (65 \<le> n \<and> n \<le> 90) \<or> (192 \<le> n \<and> n \<le> 214) \<or> (216 \<le> n \<and> n \<le> 222)
         then char_of (n + 32) else c)"

definition lower :: "string \<Rightarrow> string" where
  "lower s = map lower_char s"

definition re_sub_hashes :: "string \<Rightarrow> string" where
  \<comment> \<open>\<open>re.sub(r"^##", "", word)\<close>: without the MULTILINE flag \<open>^\<close> matches at the start of
      the string only, so at most one leading \<open>##\<close> is removed.\<close>
  "re_sub_hashes w = (if take 2 w = ''##'' then drop 2 w else w)"

section \<open>Errors\<close>

text \<open>
  An exception raised inside a model library call is a value \<open>Inl msg\<close> of the call. A
  request either fails the structural validation declared on its request class (the list
  names the offending fields, in declaration order) or the handler runs, and an exception
  escaping the handler is an internal server error.
\<close>

type_synonym exn = string

datatype error = RequestValidationError "string list" | InternalServerError exn

section \<open>models/ner.py\<close>

text \<open>One aggregated span of the token-classification pipeline's output.\<close>

record 'f span =
  word :: string
  entity_group :: string
  score :: 'f

text \<open>The dictionaries \<open>extract\<close> builds: one per kept entity, one per chunk.\<close>

record 'f entity_dict =
  ed_text :: string
  ed_label :: string
  ed_score :: 'f

record 'f chunk_dict =
  cd_text :: string
  cd_entities :: "'f entity_dict list"

type_synonym 'f pipe = "string \<Rightarrow> exn + 'f span list"

text \<open>
  The inner loop \<open>for ent in raw\<close> of \<open>EntityExtractor.extract\<close>, with the two variables it
  updates: the list \<open>entities\<close> and the set \<open>seen\<close>.
\<close>

fun extract_spans ::
  "('f \<Rightarrow> 'f) \<Rightarrow> 'f span list \<Rightarrow> 'f entity_dict list \<Rightarrow> string set \<Rightarrow> 'f entity_dict list"
where
  "extract_spans round4 [] entities seen = entities"
| "extract_spans round4 (ent # raw) entities seen =
     (let w = strip (word ent);
          w = strip (re_sub_hashes w)
      in if w = [] \<or> length w < 2 then extract_spans round4 raw entities seen
         else let key = lower w @ ''|'' @ entity_group ent
              in if key \<in> seen then extract_spans round4 raw entities seen
                 else extract_spans round4 raw
                        (entities @ [\<lparr>ed_text = w, ed_label = entity_group ent,
                                      ed_score = round4 (score ent)\<rparr>])
                        (insert key seen))"

text \<open>
  The outer loop \<open>for text in texts\<close>, with the list \<open>results\<close> and the log of the
  arguments the pipeline has been called with. An exception of the pipeline ends the loop.
\<close>

fun extract_texts ::
  "'f pipe \<Rightarrow> ('f \<Rightarrow> 'f) \<Rightarrow> string list \<Rightarrow> 'f chunk_dict list \<Rightarrow> string list
     \<Rightarrow> (exn + 'f chunk_dict list) \<times> string list"
where
  "extract_texts pipe round4 [] res calls = (Inr res, calls)"
| "extract_texts pipe round4 (txt # txts) res calls =
     (let truncated = take 2048 txt
      in case pipe truncated of
           Inl e \<Rightarrow> (Inl e, calls @ [truncated])
         | Inr raw \<Rightarrow>
             extract_texts pipe round4 txts
               (res @ [\<lparr>cd_text = truncated,
                             cd_entities = extract_spans round4 raw [] {}\<rparr>])
               (calls @ [truncated]))"

definition EntityExtractor_extract ::
  "'f pipe \<Rightarrow> ('f \<Rightarrow> 'f) \<Rightarrow> string list \<Rightarrow> (exn + 'f chunk_dict list) \<times> string list"
where
  "EntityExtractor_extract pipe round4 txts = extract_texts pipe round4 txts [] []"

section \<open>models/reranker.py\<close>

text \<open>
  \<open>CrossEncoder.predict\<close> is a library call: a parameter. The wrapper returns its outcome and
  the log of the pair lists the library has been called with.
\<close>

type_synonym 'f CrossEncoder = "(string \<times> string) list \<Rightarrow> exn + 'f list"

definition Reranker_rerank ::
  "'f CrossEncoder \<Rightarrow> string \<Rightarrow> string list \<Rightarrow> (exn + 'f list) \<times> (string \<times> string) list list"
where
  "Reranker_rerank predict query documents =
     (if documents = [] then (Inr [], [])
      else let pairs = map (\<lambda>doc. (query, doc)) documents;
               scores = predict pairs
           in (scores, [pairs]))"

section \<open>models/embedder.py\<close>

text \<open>
  The two methods of the library's \<open>SentenceTransformer\<close> that the wrapper uses are
  parameters. \<open>Embedder.__init__\<close> reads the dimension once and stores it.
\<close>

record 'f SentenceTransformer =
  encode :: "string list \<Rightarrow> exn + 'f list list"
  get_sentence_embedding_dimension :: int

record 'f Embedder =
  emb_model :: "'f SentenceTransformer"
  emb_dimension :: int

definition Embedder_init :: "'f SentenceTransformer \<Rightarrow> 'f Embedder" where
  "Embedder_init st =
     \<lparr>emb_model = st, emb_dimension = get_sentence_embedding_dimension st\<rparr>"

definition Embedder_embed ::
  "'f Embedder \<Rightarrow> string list \<Rightarrow> (exn + 'f list list) \<times> string list list"
where
  "Embedder_embed self txts = (encode (emb_model self) txts, [txts])"

section \<open>routes/embed.py\<close>

record EmbedRequest =
  texts :: "string list"

record 'f EmbedResponse =
  embeddings :: "'f list list"
  dimension :: int
  count :: int

definition validate_EmbedRequest :: "EmbedRequest \<Rightarrow> error + EmbedRequest" where
  \<comment> \<open>\<open>texts: list[str] = Field(..., min_length=1)\<close>: the constraint is on the list.\<close>
  "validate_EmbedRequest req =
     (if length (texts req) < 1 then Inl (RequestValidationError [''texts'']) else Inr req)"

definition embed ::
  "'f Embedder \<Rightarrow> EmbedRequest \<Rightarrow> (error + 'f EmbedResponse) \<times> string list list"
where
  "embed embedder req =
     (case Embedder_embed embedder (texts req) of
        (Inl e, calls) \<Rightarrow> (Inl (InternalServerError e), calls)
      | (Inr vectors, calls) \<Rightarrow>
          (Inr \<lparr>embeddings = vectors, dimension = emb_dimension embedder,
                count = int (length vectors)\<rparr>, calls))"

text \<open>The route: the body is validated against the request class, then the handler runs.\<close>

definition post_embed ::
  "'f Embedder \<Rightarrow> EmbedRequest \<Rightarrow> (error + 'f EmbedResponse) \<times> string list list"
where
  "post_embed embedder body =
     (case validate_EmbedRequest body of
        Inl e \<Rightarrow> (Inl e, [])
      | Inr req \<Rightarrow> embed embedder req)"

section \<open>routes/rerank.py\<close>

record RerankRequest =
  rq_query :: string
  rq_documents :: "string list"

record 'f RerankResponse =
  rr_scores :: "'f list"
  rr_count :: int

definition validate_RerankRequest :: "RerankRequest \<Rightarrow> error + RerankRequest" where
  \<comment> \<open>\<open>query: str = Field(..., min_length=1)\<close>, \<open>documents: list[str] = Field(..., min_length=1)\<close>;
      every failing field is reported.\<close>
  "validate_RerankRequest req =
     (let errs = (if length (rq_query req) < 1 then [''query''] else [])
               @ (if length (rq_documents req) < 1 then [''documents''] else [])
      in if errs = [] then Inr req else Inl (RequestValidationError errs))"

definition rerank ::
  "'f CrossEncoder \<Rightarrow> RerankRequest
     \<Rightarrow> (error + 'f RerankResponse) \<times> (string \<times> string) list list"
where
  "rerank reranker req =
     (case Reranker_rerank reranker (rq_query req) (rq_documents req) of
        (Inl e, calls) \<Rightarrow> (Inl (InternalServerError e), calls)
      | (Inr scores, calls) \<Rightarrow>
          (Inr \<lparr>rr_scores = scores, rr_count = int (length scores)\<rparr>, calls))"

definition post_rerank ::
  "'f CrossEncoder \<Rightarrow> RerankRequest
     \<Rightarrow> (error + 'f RerankResponse) \<times> (string \<times> string) list list"
where
  "post_rerank reranker body =
     (case validate_RerankRequest body of
        Inl e \<Rightarrow> (Inl e, [])
      | Inr req \<Rightarrow> rerank reranker req)"

section \<open>routes/entities.py\<close>

record 'f Entity =
  ent_text :: string
  ent_label :: string
  ent_score :: 'f

record 'f ChunkEntities =
  ce_text :: string
  ce_entities :: "'f Entity list"

record ExtractEntitiesRequest =
  chunks :: "string list"

record 'f ExtractEntitiesResponse =
  results :: "'f ChunkEntities list"
  total_entities :: int

definition validate_ExtractEntitiesRequest ::
  "ExtractEntitiesRequest \<Rightarrow> error + ExtractEntitiesRequest"
where
  "validate_ExtractEntitiesRequest req =
     (if length (chunks req) < 1 then Inl (RequestValidationError [''chunks'']) else Inr req)"

definition Entity_of :: "'f entity_dict \<Rightarrow> 'f Entity" where
  \<comment> \<open>\<open>Entity(text=e["text"], label=e["label"], score=e["score"])\<close>\<close>
  "Entity_of e = \<lparr>ent_text = ed_text e, ent_label = ed_label e, ent_score = ed_score e\<rparr>"

text \<open>The handler's loop \<open>for item in raw_results\<close>, with \<open>results\<close> and \<open>total\<close>.\<close>

fun extract_entities_items ::
  "'f chunk_dict list \<Rightarrow> 'f ChunkEntities list \<Rightarrow> int \<Rightarrow> 'f ChunkEntities list \<times> int"
where
  "extract_entities_items [] res tot = (res, tot)"
| "extract_entities_items (item # raw_results) res tot =
     (let entities = map Entity_of (cd_entities item);
          tot = tot + int (length entities)
      in extract_entities_items raw_results
           (res @ [\<lparr>ce_text = cd_text item, ce_entities = entities\<rparr>]) tot)"

definition extract_entities ::
  "'f pipe \<Rightarrow> ('f \<Rightarrow> 'f) \<Rightarrow> ExtractEntitiesRequest
     \<Rightarrow> (error + 'f ExtractEntitiesResponse) \<times> string list"
where
  "extract_entities extractor round4 req =
     (case EntityExtractor_extract extractor round4 (chunks req) of
        (Inl e, calls) \<Rightarrow> (Inl (InternalServerError e), calls)
      | (Inr raw_results, calls) \<Rightarrow>
          (case extract_entities_items raw_results [] 0 of
             (res, tot) \<Rightarrow> (Inr \<lparr>results = res, total_entities = tot\<rparr>, calls)))"

definition post_extract_entities ::
  "'f pipe \<Rightarrow> ('f \<Rightarrow> 'f) \<Rightarrow> ExtractEntitiesRequest
     \<Rightarrow> (error + 'f ExtractEntitiesResponse) \<times> string list"
where
  "post_extract_entities extractor round4 body =
     (case validate_ExtractEntitiesRequest body of
        Inl e \<Rightarrow> (Inl e, [])
      | Inr req \<Rightarrow> extract_entities extractor round4 req)"

section \<open>Notions used to state the properties\<close>

text \<open>The cleaned text of a span: what the inner loop holds in \<open>word\<close> after its two
  assignments.\<close>

definition clean_word :: "string \<Rightarrow> string" where
  "clean_word w = strip (re_sub_hashes (strip w))"

text \<open>The span passes the noise filter.\<close>

definition long_enough :: "'f span \<Rightarrow> bool" where
  "long_enough s = (2 \<le> length (clean_word (word s)))"

text \<open>The string the loop stores in \<open>seen\<close>, and the pair the specification speaks of.\<close>

definition dedup_key :: "'f span \<Rightarrow> string" where
  "dedup_key s = lower (clean_word (word s)) @ ''|'' @ entity_group s"

definition dedup_pair :: "'f span \<Rightarrow> string \<times> string" where
  "dedup_pair s = (lower (clean_word (word s)), entity_group s)"

text \<open>The dictionary appended for a kept span.\<close>

definition entity_dict_of :: "('f \<Rightarrow> 'f) \<Rightarrow> 'f span \<Rightarrow> 'f entity_dict" where
  "entity_dict_of round4 s =
     \<lparr>ed_text = clean_word (word s), ed_label = entity_group s, ed_score = round4 (score s)\<rparr>"

text \<open>
  Keeping first occurrences, following the specification's words: the element at index
  \<open>i\<close> stays when its key is not in \<open>seen\<close> and no earlier element has the same key.
\<close>

definition first_occurrences :: "('a \<Rightarrow> 'k) \<Rightarrow> 'k set \<Rightarrow> 'a list \<Rightarrow> 'a list" where
  "first_occurrences f seen xs =
     map (\<lambda>i. xs ! i)
       (filter (\<lambda>i. f (xs ! i) \<notin> seen \<and> (\<forall>j<i. f (xs ! j) \<noteq> f (xs ! i))) [0..<length xs])"

text \<open>The dictionary appended to \<open>results\<close> for a chunk whose pipeline output is \<open>raw\<close>.\<close>

definition chunk_result :: "('f \<Rightarrow> 'f) \<Rightarrow> string \<Rightarrow> 'f span list \<Rightarrow> 'f chunk_dict" where
  "chunk_result round4 txt raw =
     \<lparr>cd_text = take 2048 txt, cd_entities = extract_spans round4 raw [] {}\<rparr>"

text \<open>The \<open>ChunkEntities\<close> value the handler builds from one item of the wrapper's result.\<close>

definition ChunkEntities_of :: "'f chunk_dict \<Rightarrow> 'f ChunkEntities" where
  "ChunkEntities_of item =
     \<lparr>ce_text = cd_text item, ce_entities = map Entity_of (cd_entities item)\<rparr>"

text \<open>
  Cleaning, in the specification's words. \<open>stripped s t\<close>: \<open>t\<close> is \<open>s\<close> without the whitespace
  around it. \<open>marker_removed u v\<close>: \<open>v\<close> is \<open>u\<close> without a leading continuation marker \<open>##\<close>,
  and \<open>u\<close> itself when \<open>u\<close> has none. \<open>cleaned w t\<close>: \<open>t\<close> is what is left of the span text
  \<open>w\<close> after stripping, removing the marker and stripping again.
\<close>

definition stripped :: "string \<Rightarrow> string \<Rightarrow> bool" where
  "stripped s t \<longleftrightarrow>
     (\<exists>a b. s = a @ t @ b \<and> list_all isspace a \<and> list_all isspace b \<and>
            (t = [] \<or> \<not> isspace (hd t) \<and> \<not> isspace (last t)))"

definition marker_removed :: "string \<Rightarrow> string \<Rightarrow> bool" where
  "marker_removed u v \<longleftrightarrow> u = ''##'' @ v \<or> (\<forall>r. u \<noteq> ''##'' @ r) \<and> v = u"

definition cleaned :: "string \<Rightarrow> string \<Rightarrow> bool" where
  "cleaned w t \<longleftrightarrow> (\<exists>u v. stripped w u \<and> marker_removed u v \<and> stripped v t)"

text \<open>An example embedding model and an example cross-encoder, each working text by text.\<close>

definition example_encoder :: "real SentenceTransformer" where
  "example_encoder =
     \<lparr>encode = (\<lambda>ts. Inr (map (\<lambda>t. [real (length t), 1]) ts)),
      get_sentence_embedding_dimension = 2\<rparr>"

definition example_predict :: "real CrossEncoder" where
  "example_predict pairs = Inr (map (\<lambda>(q, d). real (length (filter (\<lambda>c. c \<in> set q) d))) pairs)"

text \<open>An example pipeline that refuses a text of more than 2048 characters and otherwise
  reports the length of the text it was given.\<close>

definition length_pipe :: "real pipe" where
  "length_pipe t =
     (if 2048 < length t then Inl ''too long''
      else Inr [\<lparr>word = ''chunk'', entity_group = ''LEN'', score = real (length t)\<rparr>])"

text \<open>An example pipeline output whose spans need cleaning: sub-word markers, surrounding
  whitespace, two spans that are too short once cleaned, and a repetition in lower case.\<close>

definition example_subwords :: "real span list" where
  "example_subwords =
     [\<lparr>word = ''##soft'', entity_group = ''MISC'', score = 1\<rparr>,
      \<lparr>word = '' ##ing '', entity_group = ''MISC'', score = 1\<rparr>,
      \<lparr>word = '' Apple '', entity_group = ''ORG'', score = 1\<rparr>,
      \<lparr>word = ''##x'', entity_group = ''MISC'', score = 1\<rparr>,
      \<lparr>word = '' a '', entity_group = ''ORG'', score = 1\<rparr>,
      \<lparr>word = ''apple'', entity_group = ''ORG'', score = 1/2\<rparr>]"

text \<open>An example: a chunk and a pipeline output for it, with a repeated entity in another
  spelling and a span that is too short.\<close>

definition example_chunk :: string where
  "example_chunk = ''Microsoft was founded by Bill Gates.''"

definition example_raw :: "real span list" where
  "example_raw =
     [\<lparr>word = ''Microsoft'', entity_group = ''ORG'', score = 99/100\<rparr>,
      \<lparr>word = '' ##microsoft '', entity_group = ''ORG'', score = 1/2\<rparr>,
      \<lparr>word = ''Bill Gates'', entity_group = ''PER'', score = 1\<rparr>,
      \<lparr>word = ''##x'', entity_group = ''MISC'', score = 1\<rparr>]"

section \<open>The inner loop of the entity extractor\<close>

lemma first_occurrences_Nil: "first_occurrences f seen [] = []"
  by (simp add: first_occurrences_def)

lemma first_occurrences_Cons:
  "first_occurrences f seen (x # xs) =
     (if f x \<in> seen then first_occurrences f seen xs
      else x # first_occurrences f (insert (f x) seen) xs)"
proof -
  have upt: "[0..<length (x # xs)] = 0 # map Suc [0..<length xs]"
    by (simp add: upt_conv_Cons map_Suc_upt del: upt_Suc)
  have all_Suc: "\<And>i. (\<forall>j<Suc i. f ((x # xs) ! j) \<noteq> f (xs ! i))
      = (f x \<noteq> f (xs ! i) \<and> (\<forall>j<i. f (xs ! j) \<noteq> f (xs ! i)))"
    by (auto simp: less_Suc_eq_0_disj)
  show ?thesis
  proof (cases "f x \<in> seen")
    case True
    have "filter (\<lambda>i. f (xs ! i) \<notin> seen \<and> f x \<noteq> f (xs ! i) \<and> (\<forall>j<i. f (xs ! j) \<noteq> f (xs ! i)))
            [0..<length xs]
        = filter (\<lambda>i. f (xs ! i) \<notin> seen \<and> (\<forall>j<i. f (xs ! j) \<noteq> f (xs ! i))) [0..<length xs]"
      using True by (intro filter_cong) auto
    with True show ?thesis
      unfolding first_occurrences_def upt
      by (simp add: filter_map comp_def all_Suc)
  next
    case False
    have "filter (\<lambda>i. f (xs ! i) \<notin> seen \<and> f x \<noteq> f (xs ! i) \<and> (\<forall>j<i. f (xs ! j) \<noteq> f (xs ! i)))
            [0..<length xs]
        = filter (\<lambda>i. f (xs ! i) \<notin> insert (f x) seen \<and> (\<forall>j<i. f (xs ! j) \<noteq> f (xs ! i)))
            [0..<length xs]"
      by (intro filter_cong) auto
    with False show ?thesis
      unfolding first_occurrences_def upt
      by (simp add: filter_map comp_def all_Suc)
  qed
qed

lemma extract_spans_Cons:
  "extract_spans round4 (ent # raw) entities seen =
     (if \<not> long_enough ent \<or> dedup_key ent \<in> seen then extract_spans round4 raw entities seen
      else extract_spans round4 raw (entities @ [entity_dict_of round4 ent])
             (insert (dedup_key ent) seen))"
proof -
  have short: "(clean_word (word ent) = [] \<or> length (clean_word (word ent)) < 2) = (\<not> long_enough ent)"
    by (auto simp: long_enough_def)
  show ?thesis
    using short by (simp add: Let_def clean_word_def dedup_key_def entity_dict_of_def)
qed

lemma extract_spans_eq:
  "extract_spans round4 raw entities seen =
     entities @ map (entity_dict_of round4) (first_occurrences dedup_key seen (filter long_enough raw))"
proof (induction raw arbitrary: entities seen)
  case Nil
  show ?case by (simp add: first_occurrences_Nil)
next
  case (Cons ent raw)
  show ?case
    by (simp only: extract_spans_Cons Cons.IH) (simp add: first_occurrences_Cons)
qed


lemma first_occurrences_set:
  "y \<in> set (first_occurrences f seen xs) \<Longrightarrow> f y \<notin> seen \<and> y \<in> set xs"
  by (induction xs arbitrary: seen) (auto simp: first_occurrences_Nil first_occurrences_Cons split: if_splits)

lemma first_occurrences_distinct: "distinct (map f (first_occurrences f seen xs))"
proof (induction xs arbitrary: seen)
  case Nil
  show ?case by (simp add: first_occurrences_Nil)
next
  case (Cons x xs)
  have "f x \<notin> f ` set (first_occurrences f (insert (f x) seen) xs)"
  proof
    assume "f x \<in> f ` set (first_occurrences f (insert (f x) seen) xs)"
    then obtain y where y: "y \<in> set (first_occurrences f (insert (f x) seen) xs)" "f x = f y"
      by auto
    from first_occurrences_set[OF y(1)] y(2) show False by simp
  qed
  then show ?case by (simp add: first_occurrences_Cons Cons.IH)
qed

lemma first_occurrences_cong:
  assumes "\<And>a b. a \<in> set xs \<Longrightarrow> b \<in> set xs \<Longrightarrow> (f a = f b) = (g a = g b)"
  shows "first_occurrences f {} xs = first_occurrences g {} xs"
proof -
  have "filter (\<lambda>i. f (xs ! i) \<notin> {} \<and> (\<forall>j<i. f (xs ! j) \<noteq> f (xs ! i))) [0..<length xs]
      = filter (\<lambda>i. g (xs ! i) \<notin> {} \<and> (\<forall>j<i. g (xs ! j) \<noteq> g (xs ! i))) [0..<length xs]"
  proof (intro filter_cong refl)
    fix i assume "i \<in> set [0..<length xs]"
    then have i: "i < length xs" by simp
    have "\<And>j. j < i \<Longrightarrow> (f (xs ! j) = f (xs ! i)) = (g (xs ! j) = g (xs ! i))"
      using i by (intro assms) auto
    then show "(f (xs ! i) \<notin> {} \<and> (\<forall>j<i. f (xs ! j) \<noteq> f (xs ! i)))
             = (g (xs ! i) \<notin> {} \<and> (\<forall>j<i. g (xs ! j) \<noteq> g (xs ! i)))"
      by simp
  qed
  then show ?thesis by (simp only: first_occurrences_def)
qed

lemma dedup_key_pair: "dedup_key s = fst (dedup_pair s) @ ''|'' @ snd (dedup_pair s)"
  by (simp add: dedup_key_def dedup_pair_def)

lemma dedup_pair_entity_dict_of:
  "(lower (ed_text (entity_dict_of round4 s)), ed_label (entity_dict_of round4 s)) = dedup_pair s"
  by (simp add: entity_dict_of_def dedup_pair_def)

lemma split_at_first:
  "xs @ x # ys = xs' @ x # ys' \<Longrightarrow> x \<notin> set xs \<Longrightarrow> x \<notin> set xs' \<Longrightarrow> xs = xs' \<and> ys = ys'"
proof (induction xs arbitrary: xs')
  case Nil
  then show ?case by (cases xs') auto
next
  case (Cons a xs)
  then show ?case by (cases xs') auto
qed

lemma dedup_key_inj_no_bar:
  assumes "CHR ''|'' \<notin> set (entity_group s)" and "CHR ''|'' \<notin> set (entity_group t)"
    and "dedup_key s = dedup_key t"
  shows "dedup_pair s = dedup_pair t"
proof -
  let ?a = "lower (clean_word (word s))" and ?b = "lower (clean_word (word t))"
  have "rev (dedup_key s) = rev (dedup_key t)"
    using assms(3) by simp
  then have "rev (entity_group s) @ CHR ''|'' # rev ?a = rev (entity_group t) @ CHR ''|'' # rev ?b"
    by (simp add: dedup_key_def)
  moreover have "CHR ''|'' \<notin> set (rev (entity_group s))" "CHR ''|'' \<notin> set (rev (entity_group t))"
    using assms(1,2) by simp_all
  ultimately have "rev (entity_group s) = rev (entity_group t) \<and> rev ?a = rev ?b"
    by (rule split_at_first)
  then show ?thesis by (simp add: dedup_pair_def)
qed

lemma extract_spans_pairs_distinct:
  "distinct (map (\<lambda>e. (lower (ed_text e), ed_label e)) (extract_spans round4 raw [] {}))"
proof -
  let ?ys = "first_occurrences (dedup_key :: 'a span \<Rightarrow> string) {} (filter long_enough raw)"
  have d: "distinct (map dedup_key ?ys)" by (rule first_occurrences_distinct)
  have "inj_on dedup_pair (set ?ys)"
  proof (rule inj_onI)
    fix a b assume "a \<in> set ?ys" "b \<in> set ?ys" "dedup_pair a = dedup_pair b"
    then have "dedup_key a = dedup_key b" by (simp add: dedup_key_pair)
    with d \<open>a \<in> set ?ys\<close> \<open>b \<in> set ?ys\<close> show "a = b"
      by (auto simp: distinct_map dest: inj_onD)
  qed
  with d have "distinct (map dedup_pair ?ys)" by (simp add: distinct_map)
  then show ?thesis
    by (simp add: extract_spans_eq comp_def dedup_pair_entity_dict_of)
qed

lemma dropWhile_last: "dropWhile P xs \<noteq> [] \<Longrightarrow> last (dropWhile P xs) = last xs"
  by (induction xs) (auto split: if_splits)

lemma strip_ends:
  assumes "strip s \<noteq> []"
  shows "\<not> isspace (hd (strip s)) \<and> \<not> isspace (last (strip s))"
proof -
  let ?t = "dropWhile isspace s"
  let ?u = "dropWhile isspace (rev ?t)"
  from assms have u: "?u \<noteq> []" by (simp add: strip_def)
  then have t: "?t \<noteq> []" by (cases "?t = []") simp_all
  have "\<not> isspace (hd ?u)" using u by (rule hd_dropWhile)
  moreover have "\<not> isspace (hd ?t)" using t by (rule hd_dropWhile)
  moreover have "last ?u = hd ?t" using u t by (simp add: dropWhile_last last_rev)
  ultimately show ?thesis using u by (simp add: strip_def hd_rev last_rev)
qed

section \<open>The outer loop of the entity extractor\<close>

lemma extract_texts_Inr:
  "extract_texts pipe round4 txts res calls = (Inr out, calls') \<Longrightarrow>
     calls' = calls @ map (take 2048) txts \<and>
     length out = length res + length txts \<and>
     take (length res) out = res \<and>
     (\<forall>i<length txts. \<exists>raw. pipe (take 2048 (txts ! i)) = Inr raw \<and>
          out ! (length res + i) = chunk_result round4 (txts ! i) raw)"
proof (induction txts arbitrary: res calls)
  case Nil
  then show ?case by simp
next
  case (Cons t txts)
  from Cons.prems obtain raw where raw: "pipe (take 2048 t) = Inr raw"
    by (cases "pipe (take 2048 t)") (auto simp: Let_def)
  let ?res = "res @ [chunk_result round4 t raw]"
  from Cons.prems raw
  have rec: "extract_texts pipe round4 txts ?res (calls @ [take 2048 t]) = (Inr out, calls')"
    by (simp add: Let_def chunk_result_def)
  note ih = Cons.IH[OF rec]
  have tk: "take (Suc (length res)) out = ?res" using ih by simp
  have len: "length res < length out" using ih by simp
  have "take (length res) out = take (length res) (take (Suc (length res)) out)"
    by (simp add: min_def)
  then have pre: "take (length res) out = res" by (simp only: tk) simp
  have "out ! length res = (take (Suc (length res)) out) ! length res" by simp
  then have at0: "out ! length res = chunk_result round4 t raw" by (simp only: tk) simp
  have idx: "\<exists>raw'. pipe (take 2048 ((t # txts) ! i)) = Inr raw' \<and>
          out ! (length res + i) = chunk_result round4 ((t # txts) ! i) raw'"
    if "i < length (t # txts)" for i
  proof (cases i)
    case 0
    then show ?thesis using raw at0 by simp
  next
    case (Suc k)
    then have "k < length txts" using that by simp
    with ih obtain raw' where "pipe (take 2048 (txts ! k)) = Inr raw'"
      "out ! (length ?res + k) = chunk_result round4 (txts ! k) raw'" by blast
    then show ?thesis using Suc by simp
  qed
  show ?case using ih pre idx by simp
qed

lemma extract_texts_total:
  assumes "\<And>t. t \<in> set txts \<Longrightarrow> pipe (take 2048 t) = Inr (rawf t)"
  shows "extract_texts pipe round4 txts res calls =
     (Inr (res @ map (\<lambda>t. chunk_result round4 t (rawf t)) txts), calls @ map (take 2048) txts)"
  using assms
  by (induction txts arbitrary: res calls) (simp_all add: Let_def chunk_result_def)

lemma extract_texts_calls:
  "extract_texts pipe round4 txts res calls = (out, calls') \<Longrightarrow>
     \<exists>n\<le>length txts. calls' = calls @ map (take 2048) (take n txts)"
proof (induction txts arbitrary: res calls)
  case Nil
  then show ?case by simp
next
  case (Cons t txts)
  show ?case
  proof (cases "pipe (take 2048 t)")
    case (Inl e)
    with Cons.prems have "calls' = calls @ map (take 2048) (take 1 (t # txts))"
      by (auto simp: Let_def)
    then show ?thesis by (intro exI[of _ 1]) simp
  next
    case (Inr raw)
    with Cons.prems have "extract_texts pipe round4 txts
        (res @ [chunk_result round4 t raw]) (calls @ [take 2048 t]) = (out, calls')"
      by (simp add: Let_def chunk_result_def)
    from Cons.IH[OF this] obtain n where "n \<le> length txts"
      "calls' = (calls @ [take 2048 t]) @ map (take 2048) (take n txts)" by blast
    then show ?thesis by (intro exI[of _ "Suc n"]) simp
  qed
qed

lemma extract_texts_Inl:
  "extract_texts pipe round4 txts res calls = (Inl e, calls') \<Longrightarrow>
     \<exists>n<length txts. pipe (take 2048 (txts ! n)) = Inl e \<and>
        calls' = calls @ map (take 2048) (take (Suc n) txts) \<and>
        (\<forall>i<n. \<exists>raw. pipe (take 2048 (txts ! i)) = Inr raw)"
proof (induction txts arbitrary: res calls)
  case Nil
  then show ?case by simp
next
  case (Cons t txts)
  show ?case
  proof (cases "pipe (take 2048 t)")
    case (Inl e')
    with Cons.prems have "e' = e" "calls' = calls @ [take 2048 t]"
      by (simp_all add: Let_def)
    with Inl show ?thesis by (intro exI[of _ 0]) simp
  next
    case (Inr raw)
    with Cons.prems have "extract_texts pipe round4 txts
        (res @ [chunk_result round4 t raw]) (calls @ [take 2048 t]) = (Inl e, calls')"
      by (simp add: Let_def chunk_result_def)
    from Cons.IH[OF this] obtain n where n: "n < length txts"
      "pipe (take 2048 (txts ! n)) = Inl e"
      "calls' = (calls @ [take 2048 t]) @ map (take 2048) (take (Suc n) txts)"
      "\<forall>i<n. \<exists>raw. pipe (take 2048 (txts ! i)) = Inr raw" by blast
    have "\<forall>i<Suc n. \<exists>raw. pipe (take 2048 ((t # txts) ! i)) = Inr raw"
      using n(4) Inr by (auto simp: less_Suc_eq_0_disj)
    with n(1,2,3) show ?thesis by (intro exI[of _ "Suc n"]) simp
  qed
qed

lemma extract_Inr:
  assumes "EntityExtractor_extract pipe round4 txts = (Inr res, calls)"
  shows "calls = map (take 2048) txts" and "length res = length txts"
    and "\<And>i. i < length txts \<Longrightarrow>
          \<exists>raw. pipe (take 2048 (txts ! i)) = Inr raw \<and> res ! i = chunk_result round4 (txts ! i) raw"
  using extract_texts_Inr[of pipe round4 txts "[]" "[]" res calls] assms
  by (simp_all add: EntityExtractor_extract_def)

lemma extract_Inr_nth:
  assumes "EntityExtractor_extract pipe round4 txts = (Inr res, calls)"
    and "i < length txts" and "pipe (take 2048 (txts ! i)) = Inr raw"
  shows "res ! i = chunk_result round4 (txts ! i) raw"
  using extract_Inr(3)[OF assms(1,2)] assms(3) by auto

lemma extract_spans_filter:
  "extract_spans round4 (filter long_enough raw) entities seen = extract_spans round4 raw entities seen"
  by (simp add: extract_spans_eq)

lemma extract_spans_member:
  assumes "e \<in> set (extract_spans round4 raw [] {})"
  shows "\<exists>s\<in>set raw. long_enough s \<and> e = entity_dict_of round4 s"
proof -
  from assms obtain s where
    "s \<in> set (first_occurrences dedup_key {} (filter long_enough raw))" "e = entity_dict_of round4 s"
    by (auto simp: extract_spans_eq)
  with first_occurrences_set[of s dedup_key "{}" "filter long_enough raw"] show ?thesis by auto
qed

lemma clean_word_ends:
  "clean_word w \<noteq> [] \<Longrightarrow> \<not> isspace (hd (clean_word w)) \<and> \<not> isspace (last (clean_word w))"
  unfolding clean_word_def by (rule strip_ends)

text \<open>The two loops' cleaning is the specification's.\<close>

lemma stripped_strip: "stripped s (strip s)"
proof -
  let ?a = "takeWhile isspace s" and ?d = "dropWhile isspace s"
  let ?b = "rev (takeWhile isspace (rev ?d))"
  have "rev (takeWhile isspace (rev ?d) @ dropWhile isspace (rev ?d)) = rev (rev ?d)"
    by (simp only: takeWhile_dropWhile_id)
  then have "rev (dropWhile isspace (rev ?d)) @ ?b = ?d"
    by (simp only: rev_append rev_rev_ident)
  then have d: "?d = strip s @ ?b" by (simp only: strip_def)
  have "s = ?a @ ?d" by simp
  with d have s: "s = ?a @ strip s @ ?b" by simp
  have a: "list_all isspace ?a" by (auto simp: list_all_iff dest: set_takeWhileD)
  have b: "list_all isspace ?b" by (auto simp: list_all_iff dest: set_takeWhileD)
  have e: "strip s = [] \<or> \<not> isspace (hd (strip s)) \<and> \<not> isspace (last (strip s))"
    using strip_ends[of s] by blast
  from s a b e show ?thesis unfolding stripped_def by blast
qed

lemma stripped_unique:
  assumes "stripped s t"
  shows "t = strip s"
proof -
  from assms obtain a b where s: "s = a @ t @ b" and a: "list_all isspace a"
    and b: "list_all isspace b"
    and e: "t = [] \<or> \<not> isspace (hd t) \<and> \<not> isspace (last t)"
    unfolding stripped_def by blast
  have d: "dropWhile isspace s = dropWhile isspace (t @ b)"
    using a unfolding s by (simp add: list_all_iff)
  show ?thesis
  proof (cases "t = []")
    case True
    have "dropWhile isspace (t @ b) = []" using True b by (simp add: list_all_iff)
    with d have "dropWhile isspace s = []" by (simp only:)
    then have "strip s = []" by (simp only: strip_def rev.simps dropWhile.simps)
    with True show ?thesis by simp
  next
    case False
    with e have h: "\<not> isspace (hd t)" and l: "\<not> isspace (last t)" by simp_all
    have "dropWhile isspace (t @ b) = t @ b"
      using False h by (cases t) simp_all
    with d have "rev (dropWhile isspace s) = rev b @ rev t" by simp
    moreover have "dropWhile isspace (rev b @ rev t) = dropWhile isspace (rev t)"
      using b by (intro dropWhile_append2) (simp add: list_all_iff)
    moreover have "dropWhile isspace (rev t) = rev t"
      using False l by (cases "rev t") (simp_all add: last_rev[symmetric] hd_rev)
    ultimately show ?thesis by (simp add: strip_def)
  qed
qed

lemma stripped_iff: "stripped s t \<longleftrightarrow> t = strip s"
  using stripped_strip stripped_unique by blast

lemma marker_removed_iff: "marker_removed u v \<longleftrightarrow> v = re_sub_hashes u"
proof (cases "take 2 u = ''##''")
  case True
  then have u: "u = ''##'' @ drop 2 u" by (metis append_take_drop_id)
  have "marker_removed u v \<longleftrightarrow> v = drop 2 u"
  proof
    assume "marker_removed u v"
    then show "v = drop 2 u" using u unfolding marker_removed_def by (metis same_append_eq)
  next
    assume "v = drop 2 u"
    then show "marker_removed u v" using u unfolding marker_removed_def by simp
  qed
  with True show ?thesis by (simp add: re_sub_hashes_def)
next
  case False
  then have "\<forall>r. u \<noteq> ''##'' @ r" by auto
  then have "marker_removed u v \<longleftrightarrow> v = u" unfolding marker_removed_def by blast
  with False show ?thesis by (simp add: re_sub_hashes_def)
qed

lemma cleaned_iff: "cleaned w t \<longleftrightarrow> t = clean_word w"
  by (simp add: cleaned_def stripped_iff marker_removed_iff clean_word_def)

text \<open>The example, run.\<close>

lemma example_run:
  "EntityExtractor_extract (\<lambda>t. Inr example_raw) id [example_chunk]
     = (Inr [\<lparr>cd_text = example_chunk,
              cd_entities = [\<lparr>ed_text = ''Microsoft'', ed_label = ''ORG'', ed_score = 99/100\<rparr>,
                             \<lparr>ed_text = ''Bill Gates'', ed_label = ''PER'', ed_score = 1\<rparr>]\<rparr>],
        [example_chunk])"
  by code_simp


lemma example_raw_no_bar: "\<forall>s\<in>set example_raw. CHR ''|'' \<notin> set (entity_group s)"
  by (simp add: example_raw_def)

lemma example_raw_no_collision: "\<forall>s\<in>set example_raw. \<forall>t\<in>set example_raw.
          long_enough s \<and> long_enough t \<and> dedup_key s = dedup_key t \<longrightarrow> dedup_pair s = dedup_pair t"
proof (intro ballI impI)
  fix s t :: "real span" assume "s \<in> set example_raw" "t \<in> set example_raw"
    and k: "long_enough s \<and> long_enough t \<and> dedup_key s = dedup_key t"
  then have "CHR ''|'' \<notin> set (entity_group s)" "CHR ''|'' \<notin> set (entity_group t)"
    using example_raw_no_bar by blast+
  then show "dedup_pair s = dedup_pair t" using k by (intro dedup_key_inj_no_bar) simp_all
qed

lemma length_pipe_run:
  "EntityExtractor_extract length_pipe id [replicate 2050 (CHR ''x''), ''ab'']
     = (Inr [\<lparr>cd_text = replicate 2048 (CHR ''x''),
              cd_entities = [\<lparr>ed_text = ''chunk'', ed_label = ''LEN'', ed_score = 2048\<rparr>]\<rparr>,
             \<lparr>cd_text = ''ab'',
              cd_entities = [\<lparr>ed_text = ''chunk'', ed_label = ''LEN'', ed_score = 2\<rparr>]\<rparr>],
        [replicate 2048 (CHR ''x''), ''ab''])"
proof -
  have cw: "clean_word ''chunk'' = ''chunk''" by code_simp
  have sp: "extract_spans id [\<lparr>word = ''chunk'', entity_group = ''LEN'', score = v\<rparr>] [] {}
      = [\<lparr>ed_text = ''chunk'', ed_label = ''LEN'', ed_score = v\<rparr>]" for v :: real
    by (simp add: extract_spans_Cons long_enough_def entity_dict_of_def cw del: extract_spans.simps(2))
  show ?thesis
    by (simp add: EntityExtractor_extract_def Let_def length_pipe_def sp del: extract_spans.simps(2))
qed

lemma example_subwords_run:
  "EntityExtractor_extract (\<lambda>t. Inr example_subwords) id [''Microsoft bought ing of Apple'']
     = (Inr [\<lparr>cd_text = ''Microsoft bought ing of Apple'',
              cd_entities = [\<lparr>ed_text = ''soft'', ed_label = ''MISC'', ed_score = 1\<rparr>,
                             \<lparr>ed_text = ''ing'', ed_label = ''MISC'', ed_score = 1\<rparr>,
                             \<lparr>ed_text = ''Apple'', ed_label = ''ORG'', ed_score = 1\<rparr>]\<rparr>],
        [''Microsoft bought ing of Apple''])"
  by code_simp

lemma example_clean_words:
  "clean_word ''##soft'' = ''soft''" "clean_word '' ##ing '' = ''ing''"
  "clean_word '' Apple '' = ''Apple''" "clean_word ''##x'' = ''x''" "clean_word '' a '' = ''a''"
  by code_simp+

section \<open>The loop of the extract-entities handler\<close>

lemma extract_entities_items_eq:
  "extract_entities_items raw_results res tot =
     (res @ map (\<lambda>item. \<lparr>ce_text = cd_text item, ce_entities = map Entity_of (cd_entities item)\<rparr>)
              raw_results,
      tot + (\<Sum>item\<leftarrow>raw_results. int (length (cd_entities item))))"
  by (induction raw_results arbitrary: res tot) (simp_all add: Let_def)

lemma extract_entities_Inr:
  assumes "extract_entities pipe round4 req = (Inr resp, calls)"
  shows "\<exists>rr. EntityExtractor_extract pipe round4 (chunks req) = (Inr rr, calls) \<and>
           results resp = map ChunkEntities_of rr \<and>
           total_entities resp = (\<Sum>item\<leftarrow>rr. int (length (cd_entities item)))"
proof (cases "EntityExtractor_extract pipe round4 (chunks req)")
  case (Pair out c)
  show ?thesis
  proof (cases out)
    case (Inl e)
    with Pair assms show ?thesis by (simp add: extract_entities_def)
  next
    case (Inr rr)
    with Pair assms have "c = calls"
      and "resp = \<lparr>results = map ChunkEntities_of rr,
                    total_entities = (\<Sum>item\<leftarrow>rr. int (length (cd_entities item)))\<rparr>"
      by (auto simp: extract_entities_def extract_entities_items_eq ChunkEntities_of_def)
    with Pair Inr show ?thesis by simp
  qed
qed

lemma post_extract_entities_Inr:
  assumes "post_extract_entities pipe round4 body = (Inr resp, calls)"
  shows "chunks body \<noteq> []" and "extract_entities pipe round4 body = (Inr resp, calls)"
  using assms
  by (auto simp: post_extract_entities_def validate_ExtractEntitiesRequest_def split: if_splits)

lemma post_extract_entities_returns:
  assumes "chunks body \<noteq> []"
    and "\<And>c. c \<in> set (chunks body) \<Longrightarrow> pipe (take 2048 c) = Inr (rawf c)"
  shows "\<exists>resp. post_extract_entities pipe round4 body = (Inr resp, map (take 2048) (chunks body))"
proof -
  have "EntityExtractor_extract pipe round4 (chunks body)
      = (Inr (map (\<lambda>t. chunk_result round4 t (rawf t)) (chunks body)), map (take 2048) (chunks body))"
    using extract_texts_total[of "chunks body" pipe rawf round4 "[]" "[]"] assms(2)
    by (simp add: EntityExtractor_extract_def)
  then show ?thesis using assms(1)
    by (simp add: post_extract_entities_def validate_ExtractEntitiesRequest_def
        extract_entities_def extract_entities_items_eq)
qed

lemma example_post:
  "post_extract_entities (\<lambda>t. Inr example_raw) id \<lparr>chunks = [example_chunk]\<rparr>
     = (Inr \<lparr>results =
               [\<lparr>ce_text = example_chunk,
                 ce_entities = [\<lparr>ent_text = ''Microsoft'', ent_label = ''ORG'', ent_score = 99/100\<rparr>,
                                \<lparr>ent_text = ''Bill Gates'', ent_label = ''PER'', ent_score = 1\<rparr>]\<rparr>],
             total_entities = 2\<rparr>,
        [example_chunk])"
  by code_simp

section \<open>Reranker: the empty short-circuit\<close>

text \<open>
  C6. Called directly with an empty list of documents, \<open>Reranker.rerank\<close> returns the empty
  score list for every query and every cross-encoder: no exception, and the log of calls to
  the cross-encoder is empty.
\<close>

theorem rerank_empty_documents:
  "Reranker_rerank predict query [] = (Inr [], [])"
  by (simp add: Reranker_rerank_def)


section \<open>Entity extractor: truncation\<close>

text \<open>
  C4. Whatever the outcome of \<open>EntityExtractor.extract\<close>, every call of the pipeline was given
  the first 2048 characters of a chunk, chunk by chunk in input order. When it returns, the
  pipeline has been called on every truncated chunk, the result at index \<open>i\<close> holds the
  truncated chunk \<open>i\<close> as its \<open>text\<close>, of at most 2048 characters, and the entities made from
  the pipeline's output on that truncated chunk. When it raises, the exception is the one
  the pipeline raised on a truncated chunk, every truncated chunk before it having been
  processed.
\<close>

theorem extract_truncates_chunks:
  assumes "EntityExtractor_extract pipe round4 txts = (out, calls)"
  shows "(\<exists>n\<le>length txts. calls = map (take 2048) (take n txts)) \<and>
         (\<forall>res. out = Inr res \<longrightarrow>
            calls = map (take 2048) txts \<and> map cd_text res = map (take 2048) txts \<and>
            (\<forall>r\<in>set res. length (cd_text r) \<le> 2048) \<and>
            length res = length txts \<and>
            (\<forall>i<length txts.
               \<exists>raw. pipe (take 2048 (txts ! i)) = Inr raw \<and>
                     res ! i = \<lparr>cd_text = take 2048 (txts ! i),
                                cd_entities = extract_spans round4 raw [] {}\<rparr>)) \<and>
         (\<forall>e. out = Inl e \<longrightarrow>
            (\<exists>n<length txts. pipe (take 2048 (txts ! n)) = Inl e \<and>
               calls = map (take 2048) (take (Suc n) txts) \<and>
               (\<forall>i<n. \<exists>raw. pipe (take 2048 (txts ! i)) = Inr raw)))"
proof -
  have log: "\<exists>n\<le>length txts. calls = map (take 2048) (take n txts)"
    using extract_texts_calls[of pipe round4 txts "[]" "[]" out calls] assms
    by (simp add: EntityExtractor_extract_def)
  have ok: "calls = map (take 2048) txts \<and> map cd_text res = map (take 2048) txts \<and>
            (\<forall>r\<in>set res. length (cd_text r) \<le> 2048) \<and>
            length res = length txts \<and>
            (\<forall>i<length txts.
               \<exists>raw. pipe (take 2048 (txts ! i)) = Inr raw \<and>
                     res ! i = \<lparr>cd_text = take 2048 (txts ! i),
                                cd_entities = extract_spans round4 raw [] {}\<rparr>)"
    if out: "out = Inr res" for res
  proof -
    note ok = extract_Inr[OF assms[unfolded out]]
    have nth: "\<forall>i<length txts.
               \<exists>raw. pipe (take 2048 (txts ! i)) = Inr raw \<and>
                     res ! i = \<lparr>cd_text = take 2048 (txts ! i),
                                cd_entities = extract_spans round4 raw [] {}\<rparr>"
      using ok(3) by (simp add: chunk_result_def)
    have texts: "map cd_text res = map (take 2048) txts"
    proof (rule nth_equalityI)
      show "length (map cd_text res) = length (map (take 2048) txts)" using ok(2) by simp
    next
      fix i assume "i < length (map cd_text res)"
      then have i: "i < length txts" using ok(2) by simp
      from ok(3)[OF i] have "cd_text (res ! i) = take 2048 (txts ! i)"
        by (auto simp: chunk_result_def)
      then show "map cd_text res ! i = map (take 2048) txts ! i" using i ok(2) by simp
    qed
    have short: "\<forall>r\<in>set res. length (cd_text r) \<le> 2048"
    proof
      fix r assume "r \<in> set res"
      then have "cd_text r \<in> set (map cd_text res)" by simp
      then have "cd_text r \<in> set (map (take 2048) txts)" by (simp only: texts)
      then show "length (cd_text r) \<le> 2048" by auto
    qed
    from ok(1) texts short ok(2) nth show ?thesis by (intro conjI)
  qed
  have err: "\<exists>n<length txts. pipe (take 2048 (txts ! n)) = Inl e \<and>
               calls = map (take 2048) (take (Suc n) txts) \<and>
               (\<forall>i<n. \<exists>raw. pipe (take 2048 (txts ! i)) = Inr raw)"
    if out: "out = Inl e" for e
    using extract_texts_Inl[of pipe round4 txts "[]" "[]" e calls] assms out
    by (simp add: EntityExtractor_extract_def)
  from log ok err show ?thesis by blast
qed

theorem extract_truncates_chunks_witness:
  "EntityExtractor_extract length_pipe id [replicate 2050 (CHR ''x''), ''ab'']
     = (Inr [\<lparr>cd_text = replicate 2048 (CHR ''x''),
              cd_entities = [\<lparr>ed_text = ''chunk'', ed_label = ''LEN'', ed_score = 2048\<rparr>]\<rparr>,
             \<lparr>cd_text = ''ab'',
              cd_entities = [\<lparr>ed_text = ''chunk'', ed_label = ''LEN'', ed_score = 2\<rparr>]\<rparr>],
        [replicate 2048 (CHR ''x''), ''ab'']) \<and>
   length_pipe (replicate 2050 (CHR ''x'')) = Inl ''too long'' \<and>
   (\<exists>raw. length_pipe (take 2048 (replicate 2050 (CHR ''x''))) = Inr raw \<and>
      \<lparr>cd_text = replicate 2048 (CHR ''x''),
       cd_entities = [\<lparr>ed_text = ''chunk'', ed_label = ''LEN'', ed_score = 2048\<rparr>]\<rparr>
        = \<lparr>cd_text = take 2048 (replicate 2050 (CHR ''x'')),
           cd_entities = extract_spans id raw [] {}\<rparr>) \<and>
   [replicate 2048 (CHR ''x''), ''ab''] = map (take 2048) [replicate 2050 (CHR ''x''), ''ab''] \<and>
   length (replicate 2048 (CHR ''x'')) \<le> 2048"
proof -
  let ?txts = "[replicate 2050 (CHR ''x''), ''ab'']"
  let ?r0 = "\<lparr>cd_text = replicate 2048 (CHR ''x''),
              cd_entities = [\<lparr>ed_text = ''chunk'', ed_label = ''LEN'', ed_score = 2048 :: real\<rparr>]\<rparr>"
  let ?r1 = "\<lparr>cd_text = ''ab'',
              cd_entities = [\<lparr>ed_text = ''chunk'', ed_label = ''LEN'', ed_score = 2 :: real\<rparr>]\<rparr>"
  note th = extract_truncates_chunks[OF length_pipe_run]
  from th have ok: "[replicate 2048 (CHR ''x''), ''ab''] = map (take 2048) ?txts \<and>
      map cd_text [?r0, ?r1] = map (take 2048) ?txts \<and>
      (\<forall>r\<in>set [?r0, ?r1]. length (cd_text r) \<le> 2048) \<and>
      length [?r0, ?r1] = length ?txts \<and>
      (\<forall>i<length ?txts.
         \<exists>raw. length_pipe (take 2048 (?txts ! i)) = Inr raw \<and>
               [?r0, ?r1] ! i = \<lparr>cd_text = take 2048 (?txts ! i),
                                  cd_entities = extract_spans id raw [] {}\<rparr>)"
    by blast
  have z: "(0::nat) < length ?txts" by simp
  from ok z have "\<exists>raw. length_pipe (take 2048 (?txts ! 0)) = Inr raw \<and>
               [?r0, ?r1] ! 0 = \<lparr>cd_text = take 2048 (?txts ! 0),
                                  cd_entities = extract_spans id raw [] {}\<rparr>"
    by blast
  then have a: "\<exists>raw. length_pipe (take 2048 (replicate 2050 (CHR ''x''))) = Inr raw \<and>
      ?r0 = \<lparr>cd_text = take 2048 (replicate 2050 (CHR ''x'')),
             cd_entities = extract_spans id raw [] {}\<rparr>"
    by (simp only: nth_Cons_0)
  from ok have b: "[replicate 2048 (CHR ''x''), ''ab''] = map (take 2048) ?txts"
    by (rule conjunct1)
  from ok have "\<forall>r\<in>set [?r0, ?r1]. length (cd_text r) \<le> 2048" by blast
  then have "length (cd_text ?r0) \<le> 2048" by simp
  then have c: "length (replicate 2048 (CHR ''x'')) \<le> 2048" by (simp only: chunk_dict.simps)
  have d: "length_pipe (replicate 2050 (CHR ''x'')) = Inl ''too long''"
    by (simp add: length_pipe_def)
  from length_pipe_run d a b c show ?thesis by (intro conjI)
qed

section \<open>Entity extractor: cleaning and the noise filter\<close>

text \<open>
  C8. In the result of a chunk whose pipeline output is \<open>raw\<close>, the entity list is made as
  follows: the text of every span is cleaned (stripped, one leading \<open>##\<close> removed, stripped
  again), the spans whose cleaned text has fewer than 2 characters are discarded, of the
  remaining spans the first with each key is kept, and each kept span gives an entity with
  the cleaned text, the span's label and the rounded score. The cleaned text \<open>clean_word w\<close>
  is the one string related to \<open>w\<close> by the specification's \<open>cleaned\<close>. Hence every entity text
  has at least 2 characters, neither begins nor ends with whitespace, and is the cleaned
  text of a span of \<open>raw\<close>.
\<close>

theorem extract_entity_texts_cleaned:
  assumes "EntityExtractor_extract pipe round4 txts = (Inr res, calls)"
    and "i < length txts" and "pipe (take 2048 (txts ! i)) = Inr raw"
  shows "cd_entities (res ! i) =
           map (\<lambda>s. \<lparr>ed_text = clean_word (word s), ed_label = entity_group s,
                      ed_score = round4 (score s)\<rparr>)
             (first_occurrences dedup_key {}
                (filter (\<lambda>s. 2 \<le> length (clean_word (word s))) raw)) \<and>
         (\<forall>w t. cleaned w t \<longleftrightarrow> t = clean_word w) \<and>
         cd_entities (res ! i) =
           extract_spans round4 (filter (\<lambda>s. 2 \<le> length (clean_word (word s))) raw) [] {} \<and>
         (\<forall>e\<in>set (cd_entities (res ! i)).
            2 \<le> length (ed_text e) \<and>
            \<not> isspace (hd (ed_text e)) \<and> \<not> isspace (last (ed_text e)) \<and>
            (\<exists>s\<in>set raw. ed_text e = strip (re_sub_hashes (strip (word s))) \<and>
                          ed_label e = entity_group s))"
proof -
  have ents: "cd_entities (res ! i) = extract_spans round4 raw [] {}"
    using extract_Inr_nth[OF assms] by (simp add: chunk_result_def)
  have filt: "(\<lambda>s::'a span. 2 \<le> length (clean_word (word s))) = long_enough"
    by (rule ext) (simp add: long_enough_def)
  have mk: "(\<lambda>s::'a span. \<lparr>ed_text = clean_word (word s), ed_label = entity_group s,
                      ed_score = round4 (score s)\<rparr>) = entity_dict_of round4"
    by (rule ext) (simp add: entity_dict_of_def)
  have produced: "cd_entities (res ! i) =
           map (\<lambda>s. \<lparr>ed_text = clean_word (word s), ed_label = entity_group s,
                      ed_score = round4 (score s)\<rparr>)
             (first_occurrences dedup_key {}
                (filter (\<lambda>s. 2 \<le> length (clean_word (word s))) raw))"
    by (simp only: ents extract_spans_eq filt mk append_Nil)
  have spec: "\<forall>w t. cleaned w t \<longleftrightarrow> t = clean_word w"
    by (simp add: cleaned_iff)
  have filtered: "cd_entities (res ! i) =
           extract_spans round4 (filter (\<lambda>s. 2 \<le> length (clean_word (word s))) raw) [] {}"
    by (simp only: ents filt extract_spans_filter)
  have each: "2 \<le> length (ed_text e) \<and>
            \<not> isspace (hd (ed_text e)) \<and> \<not> isspace (last (ed_text e)) \<and>
            (\<exists>s\<in>set raw. ed_text e = strip (re_sub_hashes (strip (word s))) \<and>
                          ed_label e = entity_group s)"
    if "e \<in> set (cd_entities (res ! i))" for e
  proof -
    from that ents obtain s where s: "s \<in> set raw" "long_enough s" "e = entity_dict_of round4 s"
      using extract_spans_member by metis
    have etext: "ed_text e = clean_word (word s)" and lab: "ed_label e = entity_group s"
      using s(3) by (simp_all add: entity_dict_of_def)
    have len: "2 \<le> length (ed_text e)" using s(2) etext by (simp add: long_enough_def)
    then have "clean_word (word s) \<noteq> []" using etext by auto
    from clean_word_ends[OF this] have "\<not> isspace (hd (ed_text e)) \<and> \<not> isspace (last (ed_text e))"
      by (simp add: etext)
    moreover have "\<exists>s\<in>set raw. ed_text e = strip (re_sub_hashes (strip (word s))) \<and>
                          ed_label e = entity_group s"
      using s(1) etext lab by (auto simp: clean_word_def)
    ultimately show ?thesis using len by simp
  qed
  from produced spec filtered each show ?thesis by blast
qed

theorem extract_entity_texts_cleaned_witness:
  "EntityExtractor_extract (\<lambda>t. Inr example_subwords) id [''Microsoft bought ing of Apple'']
     = (Inr [\<lparr>cd_text = ''Microsoft bought ing of Apple'',
              cd_entities = [\<lparr>ed_text = ''soft'', ed_label = ''MISC'', ed_score = 1\<rparr>,
                             \<lparr>ed_text = ''ing'', ed_label = ''MISC'', ed_score = 1\<rparr>,
                             \<lparr>ed_text = ''Apple'', ed_label = ''ORG'', ed_score = 1\<rparr>]\<rparr>],
        [''Microsoft bought ing of Apple'']) \<and>
   [\<lparr>ed_text = ''soft'', ed_label = ''MISC'', ed_score = 1\<rparr>,
    \<lparr>ed_text = ''ing'', ed_label = ''MISC'', ed_score = 1\<rparr>,
    \<lparr>ed_text = ''Apple'', ed_label = ''ORG'', ed_score = 1\<rparr>]
     = map (\<lambda>s. \<lparr>ed_text = clean_word (word s), ed_label = entity_group s,
                  ed_score = id (score s)\<rparr>)
         (first_occurrences dedup_key {}
            (filter (\<lambda>s. 2 \<le> length (clean_word (word s))) example_subwords)) \<and>
   cleaned ''##soft'' ''soft'' \<and> cleaned '' ##ing '' ''ing'' \<and> cleaned '' Apple '' ''Apple'' \<and>
   cleaned ''##x'' ''x'' \<and> cleaned '' a '' ''a'' \<and>
   list_all (\<lambda>e. 2 \<le> length (ed_text e) \<and>
            \<not> isspace (hd (ed_text e)) \<and> \<not> isspace (last (ed_text e)) \<and>
            (\<exists>s\<in>set example_subwords. ed_text e = strip (re_sub_hashes (strip (word s))) \<and>
                          ed_label e = entity_group s))
     [\<lparr>ed_text = ''soft'', ed_label = ''MISC'', ed_score = 1 :: real\<rparr>,
      \<lparr>ed_text = ''ing'', ed_label = ''MISC'', ed_score = 1\<rparr>,
      \<lparr>ed_text = ''Apple'', ed_label = ''ORG'', ed_score = 1\<rparr>]"
proof -
  let ?txts = "[''Microsoft bought ing of Apple'']"
  have i: "0 < length ?txts" by simp
  have raw: "(\<lambda>t. Inr example_subwords) (take 2048 (?txts ! 0))
      = (Inr example_subwords :: exn + real span list)" by simp
  note th = extract_entity_texts_cleaned[OF example_subwords_run i raw]
  note th1 = conjunct1[OF th] and th2 = conjunct1[OF conjunct2[OF th]]
    and th4 = conjunct2[OF conjunct2[OF conjunct2[OF th]]]
  from th1 have a: "[\<lparr>ed_text = ''soft'', ed_label = ''MISC'', ed_score = 1\<rparr>,
    \<lparr>ed_text = ''ing'', ed_label = ''MISC'', ed_score = 1\<rparr>,
    \<lparr>ed_text = ''Apple'', ed_label = ''ORG'', ed_score = 1\<rparr>]
     = map (\<lambda>s. \<lparr>ed_text = clean_word (word s), ed_label = entity_group s,
                  ed_score = id (score s)\<rparr>)
         (first_occurrences dedup_key {}
            (filter (\<lambda>s. 2 \<le> length (clean_word (word s))) example_subwords))"
    by (simp only: nth_Cons_0 chunk_dict.simps)
  from th2 have c: "cleaned w (clean_word w)" for w by blast
  have c1: "cleaned ''##soft'' ''soft''" using c[of "''##soft''"] by (simp only: example_clean_words)
  have c2: "cleaned '' ##ing '' ''ing''" using c[of "'' ##ing ''"] by (simp only: example_clean_words)
  have c3: "cleaned '' Apple '' ''Apple''" using c[of "'' Apple ''"] by (simp only: example_clean_words)
  have c4: "cleaned ''##x'' ''x''" using c[of "''##x''"] by (simp only: example_clean_words)
  have c5: "cleaned '' a '' ''a''" using c[of "'' a ''"] by (simp only: example_clean_words)
  from th4 have b: "list_all (\<lambda>e. 2 \<le> length (ed_text e) \<and>
            \<not> isspace (hd (ed_text e)) \<and> \<not> isspace (last (ed_text e)) \<and>
            (\<exists>s\<in>set example_subwords. ed_text e = strip (re_sub_hashes (strip (word s))) \<and>
                          ed_label e = entity_group s))
     [\<lparr>ed_text = ''soft'', ed_label = ''MISC'', ed_score = 1 :: real\<rparr>,
      \<lparr>ed_text = ''ing'', ed_label = ''MISC'', ed_score = 1\<rparr>,
      \<lparr>ed_text = ''Apple'', ed_label = ''ORG'', ed_score = 1\<rparr>]"
    by (simp only: nth_Cons_0 chunk_dict.simps list_all_iff)
  from example_subwords_run a c1 c2 c3 c4 c5 b show ?thesis by (intro conjI)
qed

section \<open>Entity extractor: de-duplication\<close>

text \<open>
  C3, as stated, fails in two ways. Two spans with the same pair whose cleaned text has one
  character are both discarded, so the first occurrence is not kept; and the first
  occurrence of a pair is dropped when an earlier span with another pair has the same key
  string.
\<close>

theorem first_occurrence_not_kept:
  "EntityExtractor_extract
     (\<lambda>t. Inr [\<lparr>word = ''a'', entity_group = ''ORG'', score = 1 :: real\<rparr>,
                \<lparr>word = ''a'', entity_group = ''ORG'', score = 1\<rparr>]) id [''a a'']
     = (Inr [\<lparr>cd_text = ''a a'', cd_entities = []\<rparr>], [''a a'']) \<and>
   EntityExtractor_extract
     (\<lambda>t. Inr [\<lparr>word = ''aa|b'', entity_group = ''C'', score = 1 :: real\<rparr>,
                \<lparr>word = ''aa'', entity_group = ''b|C'', score = 1\<rparr>,
                \<lparr>word = ''aa'', entity_group = ''b|C'', score = 1\<rparr>]) id [''aa|b aa aa'']
     = (Inr [\<lparr>cd_text = ''aa|b aa aa'',
              cd_entities = [\<lparr>ed_text = ''aa|b'', ed_label = ''C'', ed_score = 1\<rparr>]\<rparr>],
        [''aa|b aa aa''])"
  by code_simp

text \<open>
  C3, amended. In the result of a chunk whose pipeline output is \<open>raw\<close>, no two entities
  share the pair (lower-cased text, label). When no two spans of \<open>raw\<close> that pass the noise
  filter have different pairs and the same key string, the entities are those of the spans
  that pass the filter with the first occurrence of each pair kept and every later one
  dropped.
\<close>

theorem extract_entities_deduplicated:
  assumes "EntityExtractor_extract pipe round4 txts = (Inr res, calls)"
    and "i < length txts" and "pipe (take 2048 (txts ! i)) = Inr raw"
  shows "distinct (map (\<lambda>e. (lower (ed_text e), ed_label e)) (cd_entities (res ! i))) \<and>
     ((\<forall>s\<in>set raw. \<forall>t\<in>set raw.
          long_enough s \<and> long_enough t \<and> dedup_key s = dedup_key t \<longrightarrow> dedup_pair s = dedup_pair t) \<longrightarrow>
      cd_entities (res ! i) =
        map (entity_dict_of round4) (first_occurrences dedup_pair {} (filter long_enough raw)))"
proof (intro conjI impI)
  have ents: "cd_entities (res ! i) = extract_spans round4 raw [] {}"
    using extract_Inr_nth[OF assms] by (simp add: chunk_result_def)
  show "distinct (map (\<lambda>e. (lower (ed_text e), ed_label e)) (cd_entities (res ! i)))"
    by (simp only: ents extract_spans_pairs_distinct)
  assume inj: "\<forall>s\<in>set raw. \<forall>t\<in>set raw.
          long_enough s \<and> long_enough t \<and> dedup_key s = dedup_key t \<longrightarrow> dedup_pair s = dedup_pair t"
  have "first_occurrences dedup_key {} (filter long_enough raw)
      = first_occurrences dedup_pair {} (filter long_enough raw)"
  proof (rule first_occurrences_cong)
    fix a b :: "'a span"
    assume "a \<in> set (filter long_enough raw)" "b \<in> set (filter long_enough raw)"
    then have "dedup_key a = dedup_key b \<Longrightarrow> dedup_pair a = dedup_pair b"
      using inj by auto
    moreover have "dedup_pair a = dedup_pair b \<Longrightarrow> dedup_key a = dedup_key b"
      by (simp add: dedup_key_pair)
    ultimately show "(dedup_key a = dedup_key b) = (dedup_pair a = dedup_pair b)" by blast
  qed
  then show "cd_entities (res ! i) =
        map (entity_dict_of round4) (first_occurrences dedup_pair {} (filter long_enough raw))"
    by (simp add: ents extract_spans_eq)
qed

theorem extract_entities_deduplicated_witness:
  "EntityExtractor_extract (\<lambda>t. Inr example_raw) id [example_chunk]
     = (Inr [\<lparr>cd_text = example_chunk,
              cd_entities = [\<lparr>ed_text = ''Microsoft'', ed_label = ''ORG'', ed_score = 99/100\<rparr>,
                             \<lparr>ed_text = ''Bill Gates'', ed_label = ''PER'', ed_score = 1\<rparr>]\<rparr>],
        [example_chunk]) \<and>
   distinct (map (\<lambda>e. (lower (ed_text e), ed_label e))
     [\<lparr>ed_text = ''Microsoft'', ed_label = ''ORG'', ed_score = 99/100 :: real\<rparr>,
      \<lparr>ed_text = ''Bill Gates'', ed_label = ''PER'', ed_score = 1\<rparr>]) \<and>
   [\<lparr>ed_text = ''Microsoft'', ed_label = ''ORG'', ed_score = 99/100\<rparr>,
    \<lparr>ed_text = ''Bill Gates'', ed_label = ''PER'', ed_score = 1\<rparr>]
     = map (entity_dict_of id) (first_occurrences dedup_pair {} (filter long_enough example_raw))"
proof -
  have i: "0 < length [example_chunk]" by simp
  have raw: "(\<lambda>t. Inr example_raw) (take 2048 ([example_chunk] ! 0)) = (Inr example_raw :: exn + real span list)" by simp
  note th = extract_entities_deduplicated[OF example_run i raw]
  from th have d: "distinct (map (\<lambda>e. (lower (ed_text e), ed_label e))
     [\<lparr>ed_text = ''Microsoft'', ed_label = ''ORG'', ed_score = 99/100 :: real\<rparr>,
      \<lparr>ed_text = ''Bill Gates'', ed_label = ''PER'', ed_score = 1\<rparr>])"
    by (simp only: nth_Cons_0 chunk_dict.simps)
  from th example_raw_no_collision have e: "[\<lparr>ed_text = ''Microsoft'', ed_label = ''ORG'', ed_score = 99/100\<rparr>,
    \<lparr>ed_text = ''Bill Gates'', ed_label = ''PER'', ed_score = 1\<rparr>]
     = map (entity_dict_of id) (first_occurrences dedup_pair {} (filter long_enough example_raw))"
    by (simp only: nth_Cons_0 chunk_dict.simps)
  from example_run d e show ?thesis by (intro conjI)
qed



section \<open>The extract-entities route\<close>

text \<open>
  C7. When the route returns a response, its \<open>results\<close> list has one entry per input chunk;
  the entry at index \<open>i\<close> carries the truncated chunk \<open>i\<close> and the entities extracted from the
  pipeline's output on it; and \<open>total_entities\<close> is the sum of the lengths of the entity
  lists of the entries.
\<close>

theorem extract_entities_response:
  assumes "post_extract_entities pipe round4 body = (Inr resp, calls)"
  shows "length (results resp) = length (chunks body) \<and>
         (\<forall>i<length (chunks body).
            \<exists>raw. pipe (take 2048 (chunks body ! i)) = Inr raw \<and>
                  results resp ! i =
                    \<lparr>ce_text = take 2048 (chunks body ! i),
                     ce_entities = map Entity_of (extract_spans round4 raw [] {})\<rparr>) \<and>
         total_entities resp = (\<Sum>ce\<leftarrow>results resp. int (length (ce_entities ce)))"
proof -
  from extract_entities_Inr[OF post_extract_entities_Inr(2)[OF assms]]
  obtain rr where rr: "EntityExtractor_extract pipe round4 (chunks body) = (Inr rr, calls)"
    and res: "results resp = map ChunkEntities_of rr"
    and tot: "total_entities resp = (\<Sum>item\<leftarrow>rr. int (length (cd_entities item)))"
    by blast
  note ok = extract_Inr[OF rr]
  have len: "length (results resp) = length (chunks body)" using res ok(2) by simp
  have nth: "\<exists>raw. pipe (take 2048 (chunks body ! i)) = Inr raw \<and>
                  results resp ! i =
                    \<lparr>ce_text = take 2048 (chunks body ! i),
                     ce_entities = map Entity_of (extract_spans round4 raw [] {})\<rparr>"
    if i: "i < length (chunks body)" for i
  proof -
    from ok(3)[OF i] obtain raw where raw: "pipe (take 2048 (chunks body ! i)) = Inr raw"
      "rr ! i = chunk_result round4 (chunks body ! i) raw" by blast
    have "results resp ! i = ChunkEntities_of (rr ! i)" using res i ok(2) by simp
    with raw show ?thesis by (simp add: ChunkEntities_of_def chunk_result_def)
  qed
  have "(\<Sum>ce\<leftarrow>results resp. int (length (ce_entities ce)))
      = (\<Sum>item\<leftarrow>rr. int (length (cd_entities item)))"
    by (simp add: res comp_def ChunkEntities_of_def)
  with tot have sum: "total_entities resp = (\<Sum>ce\<leftarrow>results resp. int (length (ce_entities ce)))"
    by simp
  from len nth sum show ?thesis by blast
qed

theorem extract_entities_response_witness:
  "post_extract_entities (\<lambda>t. Inr example_raw) id \<lparr>chunks = [example_chunk]\<rparr>
     = (Inr \<lparr>results =
               [\<lparr>ce_text = example_chunk,
                 ce_entities = [\<lparr>ent_text = ''Microsoft'', ent_label = ''ORG'', ent_score = 99/100\<rparr>,
                                \<lparr>ent_text = ''Bill Gates'', ent_label = ''PER'', ent_score = 1\<rparr>]\<rparr>],
             total_entities = 2\<rparr>,
        [example_chunk]) \<and>
   length [\<lparr>ce_text = example_chunk,
                 ce_entities = [\<lparr>ent_text = ''Microsoft'', ent_label = ''ORG'', ent_score = 99/100 :: real\<rparr>,
                                \<lparr>ent_text = ''Bill Gates'', ent_label = ''PER'', ent_score = 1\<rparr>]\<rparr>]
     = length [example_chunk] \<and>
   (2::int) = (\<Sum>ce\<leftarrow>[\<lparr>ce_text = example_chunk,
                 ce_entities = [\<lparr>ent_text = ''Microsoft'', ent_label = ''ORG'', ent_score = 99/100 :: real\<rparr>,
                                \<lparr>ent_text = ''Bill Gates'', ent_label = ''PER'', ent_score = 1\<rparr>]\<rparr>].
                  int (length (ce_entities ce)))"
proof -
  note th = extract_entities_response[OF example_post]
  from th have a: "length [\<lparr>ce_text = example_chunk,
                 ce_entities = [\<lparr>ent_text = ''Microsoft'', ent_label = ''ORG'', ent_score = 99/100 :: real\<rparr>,
                                \<lparr>ent_text = ''Bill Gates'', ent_label = ''PER'', ent_score = 1\<rparr>]\<rparr>]
     = length [example_chunk]"
    by (simp only: ExtractEntitiesResponse.simps ExtractEntitiesRequest.simps)
  from th have b: "(2::int) = (\<Sum>ce\<leftarrow>[\<lparr>ce_text = example_chunk,
                 ce_entities = [\<lparr>ent_text = ''Microsoft'', ent_label = ''ORG'', ent_score = 99/100 :: real\<rparr>,
                                \<lparr>ent_text = ''Bill Gates'', ent_label = ''PER'', ent_score = 1\<rparr>]\<rparr>].
                  int (length (ce_entities ce)))"
    by (simp only: ExtractEntitiesResponse.simps ExtractEntitiesRequest.simps)
  from example_post a b show ?thesis by (intro conjI)
qed


section \<open>The embed route\<close>

text \<open>
  C1. The library's contract is the hypothesis: \<open>encode\<close> returns one vector per text, the
  vector \<open>enc t\<close> for the text \<open>t\<close>, in the order of the texts. Then a request with a non-empty
  list of texts gets a response whose \<open>count\<close> is the number of texts and the number of
  embeddings, whose embeddings are those of the texts in input order, and whose
  \<open>dimension\<close> is the one read from the model when the wrapper was constructed; the library
  was called once, with the texts.
\<close>

theorem embed_response:
  assumes "texts body \<noteq> []"
    and "\<And>ts. encode st ts = Inr (map enc ts)"
  shows "\<exists>resp. post_embed (Embedder_init st) body = (Inr resp, [texts body]) \<and>
           count resp = int (length (texts body)) \<and>
           count resp = int (length (embeddings resp)) \<and>
           embeddings resp = map enc (texts body) \<and>
           dimension resp = get_sentence_embedding_dimension st"
  using assms
  by (simp add: post_embed_def validate_EmbedRequest_def embed_def Embedder_embed_def
      Embedder_init_def)

theorem embed_response_witness:
  "post_embed (Embedder_init example_encoder) \<lparr>texts = [''hello'', ''world!'']\<rparr>
     = (Inr \<lparr>embeddings = [[5, 1], [6, 1]], dimension = 2, count = 2\<rparr>,
        [[''hello'', ''world!'']]) \<and>
   count \<lparr>embeddings = [[5, 1], [6, 1 :: real]], dimension = 2, count = 2\<rparr>
     = int (length [''hello'', ''world!'']) \<and>
   embeddings \<lparr>embeddings = [[5, 1], [6, 1 :: real]], dimension = 2, count = 2\<rparr>
     = map (\<lambda>t. [real (length t), 1]) [''hello'', ''world!''] \<and>
   dimension \<lparr>embeddings = [[5, 1], [6, 1 :: real]], dimension = 2, count = 2\<rparr>
     = get_sentence_embedding_dimension example_encoder"
proof -
  let ?body = "\<lparr>texts = [''hello'', ''world!'']\<rparr>"
  let ?resp = "\<lparr>embeddings = [[5, 1], [6, 1 :: real]], dimension = 2, count = 2\<rparr>"
  have run: "post_embed (Embedder_init example_encoder) ?body = (Inr ?resp, [[''hello'', ''world!'']])"
    by (simp add: post_embed_def validate_EmbedRequest_def embed_def Embedder_embed_def
        Embedder_init_def example_encoder_def)
  have ne: "texts ?body \<noteq> []" by simp
  have lib: "\<And>ts. encode example_encoder ts = Inr (map (\<lambda>t. [real (length t), 1]) ts)"
    by (simp add: example_encoder_def)
  from embed_response[of ?body example_encoder, OF ne lib]
  obtain resp where r: "post_embed (Embedder_init example_encoder) ?body = (Inr resp, [texts ?body])"
    and c: "count resp = int (length (texts ?body))"
    and e: "embeddings resp = map (\<lambda>t. [real (length t), 1]) (texts ?body)"
    and d: "dimension resp = get_sentence_embedding_dimension example_encoder"
    by blast
  from r run have eq: "resp = ?resp" by (simp only: prod.inject sum.inject)
  have c': "count ?resp = int (length [''hello'', ''world!''])"
    using c unfolding eq by (simp only: EmbedRequest.simps)
  have e': "embeddings ?resp = map (\<lambda>t. [real (length t), 1]) [''hello'', ''world!'']"
    using e unfolding eq by (simp only: EmbedRequest.simps)
  have d': "dimension ?resp = get_sentence_embedding_dimension example_encoder"
    using d unfolding eq .
  from run c' e' d' show ?thesis by (intro conjI)
qed

text \<open>
  C9, as stated, fails: a request whose list of texts holds an empty string is accepted and
  the empty string reaches the embedding model.
\<close>

theorem embed_accepts_empty_string:
  "post_embed (Embedder_init example_encoder) \<lparr>texts = ['''']\<rparr>
     = (Inr \<lparr>embeddings = [[0, 1]], dimension = 2, count = 1\<rparr>, [['''']])"
  by (simp add: post_embed_def validate_EmbedRequest_def embed_def Embedder_embed_def
      Embedder_init_def example_encoder_def)

text \<open>
  C9, amended. A request whose list of texts is empty is rejected with a validation error
  naming \<open>texts\<close>, and the wrapper is not called. A request whose list is not empty is never
  rejected by validation, whatever its elements are: the wrapper is called once with the
  list unchanged, and the response is built from what the library returns.
\<close>

theorem embed_validates_list_only:
  "(texts body = [] \<longrightarrow>
      post_embed embedder body = (Inl (RequestValidationError [''texts'']), [])) \<and>
   (texts body \<noteq> [] \<longrightarrow>
      snd (post_embed embedder body) = [texts body] \<and>
      fst (post_embed embedder body) =
        (case encode (emb_model embedder) (texts body) of
           Inl e \<Rightarrow> Inl (InternalServerError e)
         | Inr vectors \<Rightarrow>
             Inr \<lparr>embeddings = vectors, dimension = emb_dimension embedder,
                  count = int (length vectors)\<rparr>))"
  by (auto simp: post_embed_def validate_EmbedRequest_def embed_def Embedder_embed_def
      split: sum.splits)

theorem embed_validates_list_only_witness:
  "post_embed (Embedder_init example_encoder) \<lparr>texts = []\<rparr>
     = (Inl (RequestValidationError [''texts'']), []) \<and>
   snd (post_embed (Embedder_init example_encoder) \<lparr>texts = ['''', ''a'']\<rparr>) = [['''', ''a'']] \<and>
   fst (post_embed (Embedder_init example_encoder) \<lparr>texts = ['''', ''a'']\<rparr>)
     = Inr \<lparr>embeddings = [[0, 1], [1, 1]], dimension = 2, count = 2\<rparr>"
  using embed_validates_list_only[of "\<lparr>texts = []\<rparr>" "Embedder_init example_encoder"]
    embed_validates_list_only[of "\<lparr>texts = ['''', ''a'']\<rparr>" "Embedder_init example_encoder"]
  by (simp add: Embedder_init_def example_encoder_def)

section \<open>The rerank route\<close>

text \<open>
  C2. The library's contract is the hypothesis: \<open>predict\<close> scores each pair on its own, by
  \<open>score_pair\<close>. Then a request with a non-empty query and a non-empty list of documents
  gets a response after one library call on the pairs (query, document) in input order;
  \<open>scores\<close> has the length of \<open>documents\<close>, \<open>count\<close> is that length, the score at index \<open>i\<close>
  is the score of the pair of the query and document \<open>i\<close>, and equal documents get equal
  scores.
\<close>

theorem rerank_response:
  assumes "rq_query body \<noteq> []" and "rq_documents body \<noteq> []"
    and "\<And>pairs. predict pairs = Inr (map score_pair pairs)"
  shows "\<exists>resp. post_rerank predict body
                  = (Inr resp, [map (\<lambda>doc. (rq_query body, doc)) (rq_documents body)]) \<and>
           length (rr_scores resp) = length (rq_documents body) \<and>
           rr_count resp = int (length (rq_documents body)) \<and>
           (\<forall>i<length (rq_documents body).
              rr_scores resp ! i = score_pair (rq_query body, rq_documents body ! i)) \<and>
           (\<forall>i<length (rq_documents body). \<forall>j<length (rq_documents body).
              rq_documents body ! i = rq_documents body ! j \<longrightarrow>
              rr_scores resp ! i = rr_scores resp ! j)"
  using assms
  by (simp add: post_rerank_def validate_RerankRequest_def rerank_def Reranker_rerank_def Let_def)

theorem rerank_response_witness:
  "post_rerank example_predict \<lparr>rq_query = ''ab'', rq_documents = [''abba'', ''xyz'', ''abba'']\<rparr>
     = (Inr \<lparr>rr_scores = [4, 0, 4], rr_count = 3\<rparr>,
        [[(''ab'', ''abba''), (''ab'', ''xyz''), (''ab'', ''abba'')]]) \<and>
   length (rr_scores \<lparr>rr_scores = [4, 0, 4 :: real], rr_count = 3\<rparr>)
     = length [''abba'', ''xyz'', ''abba''] \<and>
   rr_count \<lparr>rr_scores = [4, 0, 4 :: real], rr_count = 3\<rparr>
     = int (length [''abba'', ''xyz'', ''abba'']) \<and>
   rr_scores \<lparr>rr_scores = [4, 0, 4 :: real], rr_count = 3\<rparr> ! 0
     = rr_scores \<lparr>rr_scores = [4, 0, 4 :: real], rr_count = 3\<rparr> ! 2"
proof -
  let ?docs = "[''abba'', ''xyz'', ''abba'']"
  let ?body = "\<lparr>rq_query = ''ab'', rq_documents = ?docs\<rparr>"
  let ?resp = "\<lparr>rr_scores = [4, 0, 4 :: real], rr_count = 3\<rparr>"
  let ?f = "\<lambda>(q, d). real (length (filter (\<lambda>c. c \<in> set q) d))"
  have run: "post_rerank example_predict ?body
       = (Inr ?resp, [[(''ab'', ''abba''), (''ab'', ''xyz''), (''ab'', ''abba'')]])"
    by (simp add: post_rerank_def validate_RerankRequest_def rerank_def Reranker_rerank_def
        example_predict_def)
  have q: "rq_query ?body \<noteq> []" and ds: "rq_documents ?body \<noteq> []" by simp_all
  have lib: "\<And>pairs. example_predict pairs = Inr (map ?f pairs)"
    by (simp add: example_predict_def)
  from rerank_response[of ?body example_predict ?f, OF q ds lib]
  obtain resp where
    r: "post_rerank example_predict ?body
          = (Inr resp, [map (\<lambda>doc. (rq_query ?body, doc)) (rq_documents ?body)])"
    and l: "length (rr_scores resp) = length (rq_documents ?body)"
    and c: "rr_count resp = int (length (rq_documents ?body))"
    and same: "\<forall>i<length (rq_documents ?body). \<forall>j<length (rq_documents ?body).
              rq_documents ?body ! i = rq_documents ?body ! j \<longrightarrow>
              rr_scores resp ! i = rr_scores resp ! j"
    by blast
  from r run have eq: "resp = ?resp" by (simp only: prod.inject sum.inject)
  have l': "length (rr_scores ?resp) = length ?docs"
    using l unfolding eq by (simp only: RerankRequest.simps)
  have c': "rr_count ?resp = int (length ?docs)"
    using c unfolding eq by (simp only: RerankRequest.simps)
  have "(0::nat) < length (rq_documents ?body)" "(2::nat) < length (rq_documents ?body)"
    "rq_documents ?body ! 0 = rq_documents ?body ! 2"
    by simp_all
  with same have "rr_scores resp ! 0 = rr_scores resp ! 2" by blast
  then have s': "rr_scores ?resp ! 0 = rr_scores ?resp ! 2" unfolding eq .
  from run l' c' s' show ?thesis by (intro conjI)
qed

text \<open>
  C5. A request whose list of documents is empty is rejected with a validation error that
  names \<open>documents\<close>; the log of library calls is empty, and no response is returned.
\<close>

theorem rerank_rejects_empty_documents:
  assumes "rq_documents body = []"
  shows "(\<exists>fields. post_rerank reranker body = (Inl (RequestValidationError fields), []) \<and>
                    ''documents'' \<in> set fields) \<and>
         (\<forall>resp calls. post_rerank reranker body \<noteq> (Inr resp, calls))"
  using assms by (simp add: post_rerank_def validate_RerankRequest_def)

theorem rerank_rejects_empty_documents_witness:
  "post_rerank example_predict \<lparr>rq_query = ''ab'', rq_documents = []\<rparr>
     = (Inl (RequestValidationError [''documents'']), [])"
proof -
  have "rq_documents \<lparr>rq_query = ''ab'', rq_documents = []\<rparr> = []" by simp
  from rerank_rejects_empty_documents[OF this, of example_predict]
  show ?thesis by (auto simp: post_rerank_def validate_RerankRequest_def)
qed

end
